theory Spec2Isabelle
  imports Complex_Main
begin

section \<open>Export of report tabs: screenshots merged into one PDF\<close>

text \<open>
  A shallow embedding of \<^verbatim>\<open>export_powerbi_noedge.py\<close>. The script drives a browser
  through a list of report sections, saves one screenshot per section and merges the
  screenshots into a PDF whose pages have the size of the images.

  The browser, the image library and the PDF library are outside the script. What the
  script observes of them is modelled as data: a \<open>view\<close> is what the page shows after a
  navigation (the outcome of waiting for a selector, the screenshot of an element, the
  screenshot of the whole page), the file system is a map from path strings to file
  contents, and every call that reaches the outside world is appended to a log, so that
  the order of the calls can be stated. Floating point numbers are modelled as reals and
  console output is left out.
\<close>

subsection \<open>Data\<close>

datatype error =
  IndexError
  | FileExistsError
  | FileNotFoundError
  | UnidentifiedImageError
  | EmptyImageError
  | PlaywrightError

text \<open>What \<^verbatim>\<open>loc.wait_for(state="visible", timeout=...)\<close> does: it returns, raises
  \<^verbatim>\<open>PWTimeout\<close>, or raises another exception.\<close>

datatype wait_outcome = Visible | PWTimeout | OtherException

text \<open>A decoded image: \<^verbatim>\<open>im.size\<close>, \<^verbatim>\<open>im.info.get("dpi")\<close> and the pixel at a position.\<close>

record image =
  im_size :: "int \<times> int"
  im_dpi :: "(real \<times> real) option"
  im_pixel :: "int \<Rightarrow> int \<Rightarrow> nat"

text \<open>A page of the PDF canvas: the size set by \<^verbatim>\<open>setPageSize\<close> and the image drawn on
  it by \<^verbatim>\<open>drawImage(image, x, y, width, height)\<close>.\<close>

record pdf_page =
  page_size :: "real \<times> real"
  drawn :: image
  drawn_at :: "real \<times> real"
  drawn_size :: "real \<times> real"

datatype content = PNG image | PDF "pdf_page list"

record view =
  wait_for :: "string \<Rightarrow> nat \<Rightarrow> wait_outcome"
  locator_screenshot :: "string \<Rightarrow> image"
  page_screenshot :: image

datatype event =
  Mkdir string
  | Launch
  | NewPage
  | Goto string
  | Prompt
  | Close
  | Sleep real
  | WaitFor string nat
  | LocatorShot string string
  | PageShot string

record state =
  files :: "string \<rightharpoonup> content"
  dirs :: "string set"
  browser_open :: bool
  navs :: nat
  log :: "event list"

text \<open>The outside world of one run: what the \<open>n\<close>-th navigation to a URL shows (or the
  error it raises) and the line the operator types at the prompt, a Python \<^verbatim>\<open>str\<close>, as the
  list of its Unicode code points.\<close>

record world =
  goto :: "nat \<Rightarrow> string \<Rightarrow> error + view"
  operator_input :: "nat list"

record margins =
  left :: int
  right :: int
  top :: int
  bottom :: int

text \<open>The block \<^verbatim>\<open>USER CONFIG\<close> of the script. The two paths are held as the strings
  \<^verbatim>\<open>as_posix\<close> gives; \<^verbatim>\<open>OUTPUT_PDF\<close> is computed from the clock when the script is loaded
  and fixed for the run.\<close>

record config =
  WORKSPACE_ID :: string
  REPORT_ID :: string
  SECTIONS :: "string list"
  CHROMELESS :: bool
  AFTER_NAV_WAIT_SEC :: real
  RENDER_BUFFER_SEC :: real
  OUTPUT_DIR :: string
  OUTPUT_PDF :: string
  USE_ELEMENT_CAPTURE :: bool
  CANVAS_SELECTORS :: "string list"
  CROP_MARGINS :: margins

definition source_config :: "string \<Rightarrow> config" where
  \<open>source_config pdf_name =
     \<lparr> WORKSPACE_ID = ''34206745-f731-4cf0-abb3-60f8c6063a17'',
       REPORT_ID = ''9b1ef4dc-67e0-4fb0-b7c0-a60b13d56d9b'',
       SECTIONS =
         [''aee1ca53a294adcd19d6'', ''f3068a3490443d692480'', ''bcef587a2687c468c590'',
          ''1d8509acae2a7c233b94'', ''cf3c2bc02309c11cf0d6'', ''a295e311cdc72150e15e'',
          ''fa92017d1ee22557b834'', ''7f44c7593fdc0788af2b'', ''c5b8d2e47f0c7ddcbb53'',
          ''5df08783c0b6d7388b5f''],
       CHROMELESS = True,
       AFTER_NAV_WAIT_SEC = 4,
       RENDER_BUFFER_SEC = 3,
       OUTPUT_DIR = ''powerbi_tab_exports'',
       OUTPUT_PDF = pdf_name,
       USE_ELEMENT_CAPTURE = True,
       CANVAS_SELECTORS =
         [''div.reportCanvas'', ''div[aria-label="Report canvas"]'',
          ''[data-testid="report-view-container"]'', ''div.visual-container-host''],
       CROP_MARGINS = \<lparr> left = 140, right = 0, top = 0, bottom = 145 \<rparr> \<rparr>\<close>

definition emit :: "event \<Rightarrow> state \<Rightarrow> state" where
  "emit e st = st\<lparr> log := log st @ [e] \<rparr>"

definition write_file :: "string \<Rightarrow> content \<Rightarrow> state \<Rightarrow> state" where
  "write_file p f st = st\<lparr> files := (files st)(p \<mapsto> f) \<rparr>"

subsection \<open>URL builder and waits\<close>

definition tab_url :: "config \<Rightarrow> string \<Rightarrow> string" where
  "tab_url cfg section_id =
     (let base = ''https://app.powerbi.com/groups/'' @ WORKSPACE_ID cfg @ ''/reports/''
                   @ REPORT_ID cfg @ ''/'' @ section_id;
          qs = ''experience=power-bi&clientSideAuth=0'';
          qs = (if CHROMELESS cfg
                then qs @ ''&chromeless=1&filterPaneEnabled=false&navContentPaneEnabled=false''
                else qs)
      in base @ ''?'' @ qs)"

definition wait_fixed :: "config \<Rightarrow> state \<Rightarrow> state" where
  "wait_fixed cfg st = emit (Sleep (RENDER_BUFFER_SEC cfg)) (emit (Sleep (AFTER_NAV_WAIT_SEC cfg)) st)"

subsection \<open>Capture stage\<close>

text \<open>The loop of \<^verbatim>\<open>find_report_canvas\<close> over the selectors still to try. A locator is
  represented by its selector.\<close>

fun probe_selectors :: "view \<Rightarrow> string list \<Rightarrow> state \<Rightarrow> string option \<times> state" where
  "probe_selectors page [] st = (None, st)"
| "probe_selectors page (sel # rest) st =
     (let st = emit (WaitFor sel 2000) st
      in case wait_for page sel 2000 of
           Visible \<Rightarrow> (Some sel, st)
         | PWTimeout \<Rightarrow> probe_selectors page rest st
         | OtherException \<Rightarrow> probe_selectors page rest st)"

definition find_report_canvas :: "config \<Rightarrow> view \<Rightarrow> state \<Rightarrow> string option \<times> state" where
  "find_report_canvas cfg page st = probe_selectors page (CANVAS_SELECTORS cfg) st"

text \<open>\<^verbatim>\<open>Path.with_suffix\<close>: the suffix of the final path component (from its last dot, when
  that dot is neither the first nor the last character) is replaced; a component without
  a suffix gets the new one appended.\<close>

definition path_name :: "string \<Rightarrow> string" where
  "path_name p = rev (takeWhile (\<lambda>c. c \<noteq> CHR ''/'') (rev p))"

definition path_suffix :: "string \<Rightarrow> string" where
  "path_suffix p =
     (let name = path_name p;
          suf = rev (takeWhile (\<lambda>c. c \<noteq> CHR ''.'') (rev name))
      in if CHR ''.'' \<in> set name \<and> suf \<noteq> [] \<and> length suf + 1 < length name
         then CHR ''.'' # suf else [])"

definition with_suffix :: "string \<Rightarrow> string \<Rightarrow> string" where
  "with_suffix p suffix = take (length p - length (path_suffix p)) p @ suffix"

text \<open>\<^verbatim>\<open>any(CROP_MARGINS.values())\<close>: some margin is not zero.\<close>

definition any_margin :: "margins \<Rightarrow> bool" where
  "any_margin m = (left m \<noteq> 0 \<or> right m \<noteq> 0 \<or> top m \<noteq> 0 \<or> bottom m \<noteq> 0)"

definition crop_box :: "margins \<Rightarrow> int \<times> int \<Rightarrow> int \<times> int \<times> int \<times> int" where
  "crop_box m sz =
     (let (w, h) = sz;
          left = max 0 (left m);
          right = max 0 (right m);
          top = max 0 (top m);
          bottom = max 0 (bottom m)
      in (left, top, max left (w - right), max top (h - bottom)))"

text \<open>\<^verbatim>\<open>Image.crop(box)\<close>: the region from (left, upper) to (right, lower), with the
  metadata of the source image.\<close>

definition crop :: "int \<times> int \<times> int \<times> int \<Rightarrow> image \<Rightarrow> image" where
  "crop box im =
     (let (l, u, r, lo) = box
      in \<lparr> im_size = (r - l, lo - u), im_dpi = im_dpi im,
           im_pixel = (\<lambda>x y. im_pixel im (x + l) (y + u)) \<rparr>)"

text \<open>\<^verbatim>\<open>Image.open(path)\<close>.\<close>

definition image_open :: "string \<Rightarrow> state \<Rightarrow> error + image" where
  "image_open p st =
     (case files st p of
        None \<Rightarrow> Inl FileNotFoundError
      | Some (PNG im) \<Rightarrow> Inr im
      | Some (PDF _) \<Rightarrow> Inl UnidentifiedImageError)"

text \<open>\<^verbatim>\<open>Image.save(path)\<close>: an image without pixels (width or height zero) cannot be
  written and the call raises; otherwise, without a \<^verbatim>\<open>dpi\<close> argument, it writes a PNG that
  carries no density.\<close>

definition image_save :: "image \<Rightarrow> string \<Rightarrow> state \<Rightarrow> error + state" where
  "image_save im p st =
     (let (w, h) = im_size im
      in if w \<le> 0 \<or> h \<le> 0 then Inl EmptyImageError
         else Inr (write_file p (PNG (im\<lparr> im_dpi := None \<rparr>)) st))"

text \<open>\<^verbatim>\<open>Path.rename(target)\<close>, as on POSIX: an existing target is replaced.\<close>

definition rename :: "string \<Rightarrow> string \<Rightarrow> state \<Rightarrow> error + state" where
  "rename src tgt st =
     (case files st src of
        None \<Rightarrow> Inl FileNotFoundError
      | Some f \<Rightarrow> Inr (st\<lparr> files := ((files st)(src := None))(tgt \<mapsto> f) \<rparr>))"

definition screenshot_clean :: "config \<Rightarrow> view \<Rightarrow> string \<Rightarrow> state \<Rightarrow> error + state" where
  "screenshot_clean cfg page path st =
     (let (canvas_loc, st) =
            (if USE_ELEMENT_CAPTURE cfg then find_report_canvas cfg page st else (None, st))
      in case canvas_loc of
           Some sel \<Rightarrow>
             Inr (write_file path (PNG (locator_screenshot page sel))
                   (emit (LocatorShot sel path) st))
         | None \<Rightarrow>
             (let tmp_full = with_suffix path ''.full.png'';
                  st = write_file tmp_full (PNG (page_screenshot page))
                         (emit (PageShot tmp_full) st)
              in if any_margin (CROP_MARGINS cfg)
                 then (case image_open tmp_full st of
                         Inl e \<Rightarrow> Inl e
                       | Inr im \<Rightarrow>
                           image_save (crop (crop_box (CROP_MARGINS cfg) (im_size im)) im)
                             path st)
                 else rename tmp_full path st))"

subsection \<open>Assembly stage\<close>

text \<open>\<^verbatim>\<open>im.info.get("dpi", (dpi_hint, dpi_hint))[0] or dpi_hint\<close> with \<^verbatim>\<open>dpi_hint = 96\<close>: the
  first component of the density of the image, and 96 when the image has none or that
  component is zero.\<close>

definition dpi_hint :: real where
  "dpi_hint = 96"

definition img_dpi :: "image \<Rightarrow> real" where
  "img_dpi im =
     (let d = fst (case im_dpi im of None \<Rightarrow> (dpi_hint, dpi_hint) | Some d \<Rightarrow> d)
      in if d = 0 then dpi_hint else d)"

text \<open>The body of the loop of \<^verbatim>\<open>merge_pngs_to_pdf\<close> for one opened image: the page it
  adds to the canvas.\<close>

definition image_page :: "image \<Rightarrow> pdf_page" where
  "image_page im =
     (let (w_px, h_px) = im_size im;
          px_to_pt = 72 / img_dpi im;
          page_w = real_of_int w_px * px_to_pt;
          page_h = real_of_int h_px * px_to_pt
      in \<lparr> page_size = (page_w, page_h), drawn = im, drawn_at = (0, 0),
           drawn_size = (page_w, page_h) \<rparr>)"

text \<open>The loop over the image paths, with the pages of the canvas so far.\<close>

fun merge_loop :: "string list \<Rightarrow> pdf_page list \<Rightarrow> state \<Rightarrow> error + pdf_page list" where
  "merge_loop [] c st = Inr c"
| "merge_loop (img_path # images) c st =
     (case image_open img_path st of
        Inl e \<Rightarrow> Inl e
      | Inr im \<Rightarrow> merge_loop images (c @ [image_page im]) st)"

definition merge_pngs_to_pdf :: "string list \<Rightarrow> string \<Rightarrow> state \<Rightarrow> error + state" where
  "merge_pngs_to_pdf images out_pdf st =
     (case merge_loop images [] st of
        Inl e \<Rightarrow> Inl e
      | Inr c \<Rightarrow> Inr (write_file out_pdf (PDF c) st))"

subsection \<open>Session driver\<close>

text \<open>\<^verbatim>\<open>OUTPUT_DIR.mkdir(parents=True, exist_ok=True)\<close>: nothing happens when the directory
  exists, and a file of that name makes it raise.\<close>

definition mkdir :: "string \<Rightarrow> state \<Rightarrow> error + state" where
  "mkdir p st =
     (if p \<in> dom (files st) then Inl FileExistsError
      else Inr (emit (Mkdir p) (st\<lparr> dirs := insert p (dirs st) \<rparr>)))"

definition launch_persistent_context :: "state \<Rightarrow> state" where
  "launch_persistent_context st = emit Launch (st\<lparr> browser_open := True \<rparr>)"

definition new_page :: "state \<Rightarrow> state" where
  "new_page st = emit NewPage st"

definition browser_close :: "state \<Rightarrow> state" where
  "browser_close st = emit Close (st\<lparr> browser_open := False \<rparr>)"

text \<open>\<^verbatim>\<open>page.goto(url, wait_until="domcontentloaded")\<close>.\<close>

definition page_goto :: "world \<Rightarrow> string \<Rightarrow> state \<Rightarrow> error + view \<times> state" where
  "page_goto w url st =
     (case goto w (navs st) url of
        Inl e \<Rightarrow> Inl e
      | Inr v \<Rightarrow> Inr (v, emit (Goto url) (st\<lparr> navs := Suc (navs st) \<rparr>)))"

text \<open>\<^verbatim>\<open>str.strip()\<close> removes from both ends the code points Python counts as white space:
  the ASCII ones and those of Unicode (among them U+0085 and U+00A0).\<close>

definition is_space :: "nat \<Rightarrow> bool" where
  "is_space c =
     (c \<in> set [0x09, 0x0A, 0x0B, 0x0C, 0x0D, 0x1C, 0x1D, 0x1E, 0x1F, 0x20, 0x85, 0xA0,
               0x1680, 0x2028, 0x2029, 0x202F, 0x205F, 0x3000]
      \<or> (0x2000 \<le> c \<and> c \<le> 0x200A))"

definition strip :: "nat list \<Rightarrow> nat list" where
  "strip s = rev (dropWhile is_space (rev (dropWhile is_space s)))"

text \<open>\<^verbatim>\<open>str.lower()\<close>: the letters \<^verbatim>\<open>A\<close> to \<^verbatim>\<open>Z\<close> become \<^verbatim>\<open>a\<close> to \<^verbatim>\<open>z\<close>. The code points
  outside ASCII are left as they are: Unicode gives none of them the lower case \<^verbatim>\<open>y\<close>, and
  the script only compares the result with \<^verbatim>\<open>"y"\<close>.\<close>

definition lower_point :: "nat \<Rightarrow> nat" where
  "lower_point c = (if 0x41 \<le> c \<and> c \<le> 0x5A then c + 0x20 else c)"

definition lower :: "nat list \<Rightarrow> nat list" where
  "lower s = map lower_point s"

text \<open>The code points of an ASCII string literal of the script.\<close>

definition code_points :: "string \<Rightarrow> nat list" where
  "code_points s = map of_char s"

text \<open>\<^verbatim>\<open>f"{i:02d}"\<close>: the decimal digits of \<open>i\<close>, filled with zeros on the left to two
  characters.\<close>

definition digit_char :: "nat \<Rightarrow> char" where
  "digit_char d = ''0123456789'' ! d"

fun decimal :: "nat \<Rightarrow> string" where
  "decimal n = (if n < 10 then [digit_char n] else decimal (n div 10) @ [digit_char (n mod 10)])"

definition format_02d :: "nat \<Rightarrow> string" where
  "format_02d i = (let s = decimal i in replicate (2 - length s) (CHR ''0'') @ s)"

text \<open>The \<^verbatim>\<open>/\<close> of \<^verbatim>\<open>pathlib\<close> with a relative right operand, as on POSIX: the operand is
  split at the slashes, its empty parts and its parts \<^verbatim>\<open>.\<close> are dropped, and the rest is
  appended to the path on the left.\<close>

fun split_path :: "string \<Rightarrow> string list" where
  "split_path [] = [[]]"
| "split_path (c # cs) =
     (if c = CHR ''/'' then [] # split_path cs
      else (case split_path cs of [] \<Rightarrow> [[c]] | p # ps \<Rightarrow> (c # p) # ps))"

definition path_parts :: "string \<Rightarrow> string list" where
  "path_parts s = filter (\<lambda>p. p \<noteq> [] \<and> p \<noteq> ''.'') (split_path s)"

fun join_parts :: "string list \<Rightarrow> string" where
  "join_parts [] = []"
| "join_parts [p] = p"
| "join_parts (p # ps) = p @ ''/'' @ join_parts ps"

definition path_div :: "string \<Rightarrow> string \<Rightarrow> string" where
  "path_div dir name =
     (let rest = join_parts (path_parts name)
      in if rest = [] then dir
         else if dir = ''.'' then rest
         else if dir = ''/'' then ''/'' @ rest
         else dir @ ''/'' @ rest)"

text \<open>\<^verbatim>\<open>OUTPUT_DIR / f"tab_{i:02d}_{sec}.png"\<close>, as the string \<^verbatim>\<open>as_posix\<close> gives.\<close>

definition img_path :: "config \<Rightarrow> nat \<Rightarrow> string \<Rightarrow> string" where
  "img_path cfg i sec = path_div (OUTPUT_DIR cfg) (''tab_'' @ format_02d i @ ''_'' @ sec @ ''.png'')"

text \<open>The loop \<^verbatim>\<open>for i, sec in enumerate(SECTIONS, 1)\<close> of \<^verbatim>\<open>main\<close>, from ordinal \<open>i\<close> on,
  with the list \<^verbatim>\<open>shots\<close> so far.\<close>

fun export_loop ::
  "config \<Rightarrow> world \<Rightarrow> nat \<Rightarrow> string list \<Rightarrow> string list \<Rightarrow> state \<Rightarrow> error + string list \<times> state"
where
  "export_loop cfg w i [] shots st = Inr (shots, st)"
| "export_loop cfg w i (sec # secs) shots st =
     (case page_goto w (tab_url cfg sec) st of
        Inl e \<Rightarrow> Inl e
      | Inr (page, st) \<Rightarrow>
          (let st = wait_fixed cfg st;
               p = img_path cfg i sec
           in case screenshot_clean cfg page p st of
                Inl e \<Rightarrow> Inl e
              | Inr st \<Rightarrow> export_loop cfg w (Suc i) secs (shots @ [p]) st))"

definition main :: "config \<Rightarrow> world \<Rightarrow> state \<Rightarrow> error + state" where
  "main cfg w st =
     (case mkdir (OUTPUT_DIR cfg) st of
        Inl e \<Rightarrow> Inl e
      | Inr st \<Rightarrow>
          (let st = new_page (launch_persistent_context st)
           in case SECTIONS cfg of
                [] \<Rightarrow> Inl IndexError
              | sec0 # _ \<Rightarrow>
                  (case page_goto w (tab_url cfg sec0) st of
                     Inl e \<Rightarrow> Inl e
                   | Inr (page, st) \<Rightarrow>
                       (let st = emit Prompt st;
                            resp = lower (strip (operator_input w))
                        in if resp \<noteq> code_points ''y'' then Inr (browser_close st)
                           else (case export_loop cfg w 1 (SECTIONS cfg) [] st of
                                   Inl e \<Rightarrow> Inl e
                                 | Inr (shots, st) \<Rightarrow>
                                     merge_pngs_to_pdf shots (OUTPUT_PDF cfg)
                                       (browser_close st))))))"

text \<open>The state in which \<^verbatim>\<open>main\<close> asks the operator: the output directory made, the
  browser launched, a page opened and sent to the first section.\<close>

definition state_at_prompt :: "config \<Rightarrow> string \<Rightarrow> state \<Rightarrow> state" where
  "state_at_prompt cfg sec0 st =
     st\<lparr> dirs := insert (OUTPUT_DIR cfg) (dirs st), browser_open := True, navs := Suc (navs st),
         log := log st @ [Mkdir (OUTPUT_DIR cfg), Launch, NewPage, Goto (tab_url cfg sec0), Prompt] \<rparr>"

subsection \<open>Example inputs\<close>

text \<open>Concrete inputs on which the properties below are evaluated: an image without
  content, a page on which no selector of the script becomes visible, a page on which
  every selector but the first one is visible, and the state before a first run.\<close>

definition blank_image :: "int \<Rightarrow> int \<Rightarrow> image" where
  "blank_image w h = \<lparr> im_size = (w, h), im_dpi = None, im_pixel = (\<lambda>x y. 0) \<rparr>"

definition hidden_view :: view where
  "hidden_view =
     \<lparr> wait_for = (\<lambda>sel ms. PWTimeout),
       locator_screenshot = (\<lambda>sel. blank_image 1600 900),
       page_screenshot = blank_image 1920 1200 \<rparr>"

definition late_view :: view where
  "late_view =
     \<lparr> wait_for = (\<lambda>sel ms. if sel = ''div.reportCanvas'' then PWTimeout else Visible),
       locator_screenshot = (\<lambda>sel. blank_image 1600 900),
       page_screenshot = blank_image 1920 1200 \<rparr>"

definition empty_state :: state where
  "empty_state = \<lparr> files = Map.empty, dirs = {}, browser_open = False, navs = 0, log = [] \<rparr>"

definition no_margins :: margins where
  "no_margins = \<lparr> left = 0, right = 0, top = 0, bottom = 0 \<rparr>"

definition two_images :: state where
  "two_images =
     empty_state\<lparr> files :=
       [''a.png'' \<mapsto> PNG ((blank_image 1920 1200)\<lparr> im_dpi := Some (96, 96) \<rparr>),
        ''b.png'' \<mapsto> PNG (blank_image 1780 1055)] \<rparr>"

definition declining_world :: world where
  "declining_world = \<lparr> goto = (\<lambda>n url. Inr hidden_view), operator_input = code_points ''yes'' \<rparr>"

definition two_sections :: config where
  "two_sections =
     (source_config ''out.pdf'')\<lparr> SECTIONS := [''aee1ca53a294adcd19d6'', ''f3068a3490443d692480''] \<rparr>"

text \<open>An operator who types a blank, \<^verbatim>\<open>Y\<close> and a no-break space (U+00A0), on pages where no
  selector becomes visible.\<close>

definition confirming_world :: world where
  "confirming_world = \<lparr> goto = (\<lambda>n url. Inr hidden_view), operator_input = [0x20, 0x59, 0xA0] \<rparr>"

text \<open>Pages whose capture is smaller than the margins of the script, or just as wide as
  its left margin, and a left margin below zero.\<close>

definition small_view :: view where
  "small_view = hidden_view\<lparr> page_screenshot := blank_image 100 80 \<rparr>"

definition narrow_view :: view where
  "narrow_view = hidden_view\<lparr> page_screenshot := blank_image 140 300 \<rparr>"

definition negative_left :: margins where
  "negative_left = \<lparr> left = - 10, right = 0, top = 0, bottom = 0 \<rparr>"

section \<open>Properties of the capture stage\<close>

lemma probe_selectors_none:
  "\<forall>s\<in>set sels. wait_for page s 2000 \<noteq> Visible \<Longrightarrow>
   probe_selectors page sels st = (None, st\<lparr> log := log st @ map (\<lambda>s. WaitFor s 2000) sels \<rparr>)"
proof (induction sels arbitrary: st)
  case Nil
  then show ?case by simp
next
  case (Cons sel rest)
  then show ?case
    by (cases "wait_for page sel 2000") (simp_all add: emit_def)
qed

lemma probe_selectors_first:
  "\<forall>s\<in>set pre. wait_for page s 2000 \<noteq> Visible \<Longrightarrow> wait_for page sel 2000 = Visible \<Longrightarrow>
   probe_selectors page (pre @ sel # post) st =
     (Some sel, st\<lparr> log := log st @ map (\<lambda>s. WaitFor s 2000) (pre @ [sel]) \<rparr>)"
proof (induction pre arbitrary: st)
  case Nil
  then show ?case by (simp add: emit_def)
next
  case (Cons s pre)
  then show ?case
    by (cases "wait_for page s 2000") (simp_all add: emit_def)
qed

text \<open>What \<open>screenshot_clean\<close> computes when no locator is found (or element capture is
  switched off): the probes, the capture of the whole page into the \<^verbatim>\<open>.full.png\<close> file, and
  then either the save of the cropped image under the path or the capture renamed to it.\<close>

lemma screenshot_clean_fallback:
  assumes "USE_ELEMENT_CAPTURE cfg \<longrightarrow>
           (\<forall>s\<in>set (CANVAS_SELECTORS cfg). wait_for page s 2000 \<noteq> Visible)"
  shows "screenshot_clean cfg page path st =
     (let st1 = (if USE_ELEMENT_CAPTURE cfg
                 then st\<lparr> log := log st @ map (\<lambda>s. WaitFor s 2000) (CANVAS_SELECTORS cfg) \<rparr>
                 else st);
          tmp_full = with_suffix path ''.full.png'';
          st2 = write_file tmp_full (PNG (page_screenshot page)) (emit (PageShot tmp_full) st1)
      in if any_margin (CROP_MARGINS cfg)
         then image_save (crop (crop_box (CROP_MARGINS cfg) (im_size (page_screenshot page)))
                (page_screenshot page)) path st2
         else Inr (st2\<lparr> files := ((files st2)(tmp_full := None))(path \<mapsto> PNG (page_screenshot page)) \<rparr>))"
proof (cases "USE_ELEMENT_CAPTURE cfg")
  case True
  with assms have "find_report_canvas cfg page st =
      (None, st\<lparr> log := log st @ map (\<lambda>s. WaitFor s 2000) (CANVAS_SELECTORS cfg) \<rparr>)"
    by (simp add: find_report_canvas_def probe_selectors_none)
  with True show ?thesis
    by (simp add: screenshot_clean_def Let_def image_open_def write_file_def rename_def)
next
  case False
  then show ?thesis
    by (simp add: screenshot_clean_def Let_def image_open_def write_file_def rename_def)
qed

lemma screenshot_clean_element:
  assumes "USE_ELEMENT_CAPTURE cfg" and "CANVAS_SELECTORS cfg = pre @ sel # post"
    and "\<forall>s\<in>set pre. wait_for page s 2000 \<noteq> Visible" and "wait_for page sel 2000 = Visible"
  shows "screenshot_clean cfg page path st =
     Inr (write_file path (PNG (locator_screenshot page sel))
           (emit (LocatorShot sel path)
             (st\<lparr> log := log st @ map (\<lambda>s. WaitFor s 2000) (pre @ [sel]) \<rparr>)))"
proof -
  have "find_report_canvas cfg page st =
      (Some sel, st\<lparr> log := log st @ map (\<lambda>s. WaitFor s 2000) (pre @ [sel]) \<rparr>)"
    using assms(2-4) by (simp add: find_report_canvas_def probe_selectors_first)
  with assms(1) show ?thesis
    by (simp add: screenshot_clean_def)
qed

text \<open>
  C9. Whatever the size of the image and whatever the four margins (negative ones and
  ones larger than the image included), the box handed to the crop has each margin
  clamped below at 0, its left and upper edges are not negative, its right edge is not
  left of its left edge and its lower edge is not above its upper edge.
\<close>

theorem crop_box_valid:
  "(case crop_box m (w, h) of
      (l, u, r, lo) \<Rightarrow>
        l = max 0 (left m) \<and> u = max 0 (top m) \<and>
        r = max l (w - max 0 (right m)) \<and> lo = max u (h - max 0 (bottom m)) \<and>
        0 \<le> l \<and> 0 \<le> u \<and> l \<le> r \<and> u \<le> lo)"
  by (simp add: crop_box_def Let_def max_def)

text \<open>
  C8. With element capture enabled, the selectors are probed in the order of
  \<^verbatim>\<open>CANVAS_SELECTORS\<close>, each with a timeout of 2000 ms. When the selectors before \<open>sel\<close> do
  not become visible and \<open>sel\<close> does, the locator found is \<open>sel\<close>, the file written is
  the screenshot of that element, and the calls made are the probes of the earlier
  selectors, the probe of \<open>sel\<close> and the element screenshot: no later selector is probed.
\<close>

theorem first_match_wins:
  assumes "USE_ELEMENT_CAPTURE cfg" and "CANVAS_SELECTORS cfg = pre @ sel # post"
    and "\<forall>s\<in>set pre. wait_for page s 2000 \<noteq> Visible" and "wait_for page sel 2000 = Visible"
  shows "fst (find_report_canvas cfg page st) = Some sel \<and>
         (\<exists>st'. screenshot_clean cfg page path st = Inr st' \<and>
            files st' = (files st)(path \<mapsto> PNG (locator_screenshot page sel)) \<and>
            log st' = log st @ map (\<lambda>s. WaitFor s 2000) pre
                        @ [WaitFor sel 2000, LocatorShot sel path])"
proof -
  have "fst (find_report_canvas cfg page st) = Some sel"
    using assms(2-4) by (simp add: find_report_canvas_def probe_selectors_first)
  moreover have "\<exists>st'. screenshot_clean cfg page path st = Inr st' \<and>
            files st' = (files st)(path \<mapsto> PNG (locator_screenshot page sel)) \<and>
            log st' = log st @ map (\<lambda>s. WaitFor s 2000) pre
                        @ [WaitFor sel 2000, LocatorShot sel path]"
    by (simp add: screenshot_clean_element [OF assms] write_file_def emit_def)
  ultimately show ?thesis by simp
qed

theorem first_match_wins_witness:
  \<open>fst (find_report_canvas (source_config ''out.pdf'') late_view empty_state)
      = Some ''div[aria-label="Report canvas"]'' \<and>
   (\<exists>st'. screenshot_clean (source_config ''out.pdf'') late_view ''powerbi_tab_exports/tab_01_a.png''
            empty_state = Inr st' \<and>
      files st' = [''powerbi_tab_exports/tab_01_a.png'' \<mapsto> PNG (blank_image 1600 900)] \<and>
      log st' = [WaitFor ''div.reportCanvas'' 2000, WaitFor ''div[aria-label="Report canvas"]'' 2000,
                 LocatorShot ''div[aria-label="Report canvas"]'' ''powerbi_tab_exports/tab_01_a.png''])\<close>
  using first_match_wins [of "source_config ''out.pdf''" "[''div.reportCanvas'']"
      \<open>''div[aria-label="Report canvas"]''\<close>
      \<open>[''[data-testid="report-view-container"]'', ''div.visual-container-host'']\<close>
      late_view empty_state "''powerbi_tab_exports/tab_01_a.png''"]
  by (simp add: source_config_def late_view_def empty_state_def)

lemma crop_size_inside:
  assumes "max 0 (left m) + max 0 (right m) < w" and "max 0 (top m) + max 0 (bottom m) < h"
  shows "im_size (crop (crop_box m (w, h)) im) =
           (w - max 0 (left m) - max 0 (right m), h - max 0 (top m) - max 0 (bottom m))"
  using assms by (simp add: crop_def crop_box_def Let_def max_def)

lemma image_save_inside:
  assumes "0 < fst (im_size im)" and "0 < snd (im_size im)"
  shows "image_save im p st = Inr (write_file p (PNG (im\<lparr> im_dpi := None \<rparr>)) st)"
  using assms by (cases "im_size im") (simp add: image_save_def)

text \<open>
  C3, as the code has it. When no selector of the list becomes visible (each probe times
  out or raises), \<^verbatim>\<open>find_report_canvas\<close> returns \<^verbatim>\<open>None\<close>, and \<^verbatim>\<open>screenshot_clean\<close> captures
  the whole page. It returns without an error and leaves under the given path the
  capture cropped by the configured margins, provided that the margins leave something
  of the capture: the left and right margin (each taken as 0 when negative) are together
  less than its width and the top and bottom margin less than its height. When all
  margins are zero the capture itself is left under the path.
\<close>

theorem fallback_without_error:
  assumes "\<forall>s\<in>set (CANVAS_SELECTORS cfg). wait_for page s 2000 \<noteq> Visible"
    and "im_size (page_screenshot page) = (w, h)"
    and "any_margin (CROP_MARGINS cfg) \<longrightarrow>
           max 0 (left (CROP_MARGINS cfg)) + max 0 (right (CROP_MARGINS cfg)) < w \<and>
           max 0 (top (CROP_MARGINS cfg)) + max 0 (bottom (CROP_MARGINS cfg)) < h"
  shows "fst (find_report_canvas cfg page st) = None \<and>
         (\<exists>st'. screenshot_clean cfg page path st = Inr st' \<and>
            files st' path =
              Some (PNG (if any_margin (CROP_MARGINS cfg)
                         then (crop (crop_box (CROP_MARGINS cfg) (im_size (page_screenshot page)))
                                 (page_screenshot page))\<lparr> im_dpi := None \<rparr>
                         else page_screenshot page)) \<and>
            log st' = log st
              @ (if USE_ELEMENT_CAPTURE cfg then map (\<lambda>s. WaitFor s 2000) (CANVAS_SELECTORS cfg) else [])
              @ [PageShot (with_suffix path ''.full.png'')])"
proof -
  have none: "fst (find_report_canvas cfg page st) = None"
    using assms(1) by (simp add: find_report_canvas_def probe_selectors_none)
  have fb: "USE_ELEMENT_CAPTURE cfg \<longrightarrow>
      (\<forall>s\<in>set (CANVAS_SELECTORS cfg). wait_for page s 2000 \<noteq> Visible)"
    using assms(1) by simp
  show ?thesis
  proof (cases "any_margin (CROP_MARGINS cfg)")
    case True
    let ?im = "crop (crop_box (CROP_MARGINS cfg) (w, h)) (page_screenshot page)"
    from True assms(3) have inside:
      "max 0 (left (CROP_MARGINS cfg)) + max 0 (right (CROP_MARGINS cfg)) < w"
      "max 0 (top (CROP_MARGINS cfg)) + max 0 (bottom (CROP_MARGINS cfg)) < h"
      by simp_all
    have sz: "im_size ?im =
        (w - max 0 (left (CROP_MARGINS cfg)) - max 0 (right (CROP_MARGINS cfg)),
         h - max 0 (top (CROP_MARGINS cfg)) - max 0 (bottom (CROP_MARGINS cfg)))"
      by (rule crop_size_inside [OF inside])
    have "0 < w - max 0 (left (CROP_MARGINS cfg)) - max 0 (right (CROP_MARGINS cfg))"
      "0 < h - max 0 (top (CROP_MARGINS cfg)) - max 0 (bottom (CROP_MARGINS cfg))"
      using inside by linarith+
    then have "0 < fst (im_size ?im)" "0 < snd (im_size ?im)"
      by (simp_all only: sz fst_conv snd_conv)
    then have "image_save ?im path st2 = Inr (write_file path (PNG (?im\<lparr> im_dpi := None \<rparr>)) st2)"
      for st2
      by (rule image_save_inside)
    with True none assms(2) show ?thesis
      by (simp add: screenshot_clean_fallback [OF fb] Let_def write_file_def emit_def)
  next
    case False
    with none show ?thesis
      by (simp add: screenshot_clean_fallback [OF fb] Let_def write_file_def emit_def)
  qed
qed

theorem fallback_without_error_witness:
  \<open>fst (find_report_canvas (source_config ''out.pdf'') hidden_view empty_state) = None \<and>
   (\<exists>st'. screenshot_clean (source_config ''out.pdf'') hidden_view
             ''powerbi_tab_exports/tab_01_a.png'' empty_state = Inr st' \<and>
      files st' ''powerbi_tab_exports/tab_01_a.png'' = Some (PNG (blank_image 1780 1055)) \<and>
      log st' = [WaitFor ''div.reportCanvas'' 2000, WaitFor ''div[aria-label="Report canvas"]'' 2000,
                 WaitFor ''[data-testid="report-view-container"]'' 2000,
                 WaitFor ''div.visual-container-host'' 2000,
                 PageShot ''powerbi_tab_exports/tab_01_a.full.png''])\<close>
proof -
  let ?cfg = "source_config ''out.pdf''"
  have h: "\<forall>s\<in>set (CANVAS_SELECTORS ?cfg). wait_for hidden_view s 2000 \<noteq> Visible"
    by (simp add: hidden_view_def)
  have sz: "im_size (page_screenshot hidden_view) = (1920, 1200)"
    by (simp add: hidden_view_def blank_image_def)
  have m: "any_margin (CROP_MARGINS ?cfg) \<longrightarrow>
      max 0 (left (CROP_MARGINS ?cfg)) + max 0 (right (CROP_MARGINS ?cfg)) < 1920 \<and>
      max 0 (top (CROP_MARGINS ?cfg)) + max 0 (bottom (CROP_MARGINS ?cfg)) < 1200"
    by (simp add: source_config_def)
  show ?thesis
    using fallback_without_error [OF h sz m, of empty_state "''powerbi_tab_exports/tab_01_a.png''"]
    by (simp add: source_config_def hidden_view_def empty_state_def any_margin_def crop_def
        crop_box_def blank_image_def with_suffix_def path_suffix_def path_name_def)
qed

text \<open>The claim as the specification states it, for every capture, fails on a capture of
  100 x 80 with the margins of the script: the crop is empty and saving it raises.\<close>

theorem fallback_without_error_counterexample:
  "screenshot_clean (source_config ''out.pdf'') small_view ''powerbi_tab_exports/tab_01_a.png''
     empty_state = Inl EmptyImageError"
proof -
  have fb: "USE_ELEMENT_CAPTURE (source_config ''out.pdf'') \<longrightarrow>
      (\<forall>s\<in>set (CANVAS_SELECTORS (source_config ''out.pdf'')). wait_for small_view s 2000 \<noteq> Visible)"
    by (simp add: small_view_def hidden_view_def)
  show ?thesis
    by (simp add: screenshot_clean_fallback [OF fb] Let_def)
       (simp add: source_config_def small_view_def hidden_view_def any_margin_def image_save_def
          crop_def crop_box_def blank_image_def)
qed

text \<open>
  C6, as the code has it. On the fallback path, for margins that are not negative and
  leave something of the capture (left + right less than the width, top + bottom less
  than the height), the image saved has the size
  (width - left - right, height - top - bottom). For a capture of 1920 x 1200 and the
  margins of the script (left 140, right 0, top 0, bottom 145) that is (1780, 1055).
\<close>

theorem cropped_size:
  assumes "USE_ELEMENT_CAPTURE cfg \<longrightarrow>
           (\<forall>s\<in>set (CANVAS_SELECTORS cfg). wait_for page s 2000 \<noteq> Visible)"
    and "im_size (page_screenshot page) = (w, h)"
    and "0 \<le> left (CROP_MARGINS cfg)" and "0 \<le> right (CROP_MARGINS cfg)"
    and "0 \<le> top (CROP_MARGINS cfg)" and "0 \<le> bottom (CROP_MARGINS cfg)"
    and "left (CROP_MARGINS cfg) + right (CROP_MARGINS cfg) < w"
    and "top (CROP_MARGINS cfg) + bottom (CROP_MARGINS cfg) < h"
  shows "\<exists>st' im. screenshot_clean cfg page path st = Inr st' \<and>
           files st' path = Some (PNG im) \<and>
           im_size im = (w - left (CROP_MARGINS cfg) - right (CROP_MARGINS cfg),
                         h - top (CROP_MARGINS cfg) - bottom (CROP_MARGINS cfg))"
proof (cases "any_margin (CROP_MARGINS cfg)")
  case True
  let ?im = "crop (crop_box (CROP_MARGINS cfg) (w, h)) (page_screenshot page)"
  have inside: "max 0 (left (CROP_MARGINS cfg)) + max 0 (right (CROP_MARGINS cfg)) < w"
    "max 0 (top (CROP_MARGINS cfg)) + max 0 (bottom (CROP_MARGINS cfg)) < h"
    using assms(3-8) by simp_all
  have sz: "im_size ?im = (w - left (CROP_MARGINS cfg) - right (CROP_MARGINS cfg),
                          h - top (CROP_MARGINS cfg) - bottom (CROP_MARGINS cfg))"
    using assms(3-6) by (simp add: crop_size_inside [OF inside])
  with assms(7,8) have "0 < fst (im_size ?im)" "0 < snd (im_size ?im)"
    by simp_all
  then have "image_save ?im path st2 = Inr (write_file path (PNG (?im\<lparr> im_dpi := None \<rparr>)) st2)"
    for st2
    by (rule image_save_inside)
  with True assms(2) sz show ?thesis
    by (simp add: screenshot_clean_fallback [OF assms(1)] Let_def write_file_def)
next
  case False
  with assms(2) show ?thesis
    by (simp add: screenshot_clean_fallback [OF assms(1)] Let_def write_file_def any_margin_def)
qed

theorem cropped_size_witness:
  "\<exists>st' im. screenshot_clean (source_config ''out.pdf'') hidden_view
              ''powerbi_tab_exports/tab_01_a.png'' empty_state = Inr st' \<and>
     files st' ''powerbi_tab_exports/tab_01_a.png'' = Some (PNG im) \<and>
     im_size (page_screenshot hidden_view) = (1920, 1200) \<and>
     CROP_MARGINS (source_config ''out.pdf'') = \<lparr> left = 140, right = 0, top = 0, bottom = 145 \<rparr> \<and>
     im_size im = (1780, 1055)"
  using cropped_size [of "source_config ''out.pdf''" hidden_view 1920 1200
      "''powerbi_tab_exports/tab_01_a.png''" empty_state]
  by (simp add: source_config_def hidden_view_def blank_image_def)

text \<open>The claim as the specification states it fails in two places. A capture of
  140 x 300 is as wide as the left margin of the script, no margin exceeds its size, and
  there is no cropped image at all: saving the empty crop raises. And a left margin of
  -10 is taken as 0, so that a capture of 1920 x 1200 keeps its width 1920 where
  width - left - right would be 1930.\<close>

theorem cropped_size_counterexample:
  "screenshot_clean (source_config ''out.pdf'') narrow_view ''powerbi_tab_exports/tab_01_a.png''
     empty_state = Inl EmptyImageError \<and>
   im_size (crop (crop_box negative_left (1920, 1200)) (blank_image 1920 1200)) = (1920, 1200) \<and>
   (1920, 1200) \<noteq> (1920 - left negative_left - right negative_left,
                    1200 - top negative_left - bottom negative_left)"
proof -
  have fb: "USE_ELEMENT_CAPTURE (source_config ''out.pdf'') \<longrightarrow>
      (\<forall>s\<in>set (CANVAS_SELECTORS (source_config ''out.pdf'')). wait_for narrow_view s 2000 \<noteq> Visible)"
    by (simp add: narrow_view_def hidden_view_def)
  have "screenshot_clean (source_config ''out.pdf'') narrow_view ''powerbi_tab_exports/tab_01_a.png''
     empty_state = Inl EmptyImageError"
    by (simp add: screenshot_clean_fallback [OF fb] Let_def)
       (simp add: source_config_def narrow_view_def hidden_view_def any_margin_def image_save_def
          crop_def crop_box_def blank_image_def)
  then show ?thesis
    by (simp add: negative_left_def crop_def crop_box_def blank_image_def)
qed

text \<open>
  C7. When the four margins are zero, the fallback path does not crop: the file under
  the given path is the capture of the whole page itself, moved there by the rename, and
  no file other than that path and the \<^verbatim>\<open>.full.png\<close> path is touched.
\<close>

theorem zero_margins_keep_full_capture:
  assumes "USE_ELEMENT_CAPTURE cfg \<longrightarrow>
           (\<forall>s\<in>set (CANVAS_SELECTORS cfg). wait_for page s 2000 \<noteq> Visible)"
    and "left (CROP_MARGINS cfg) = 0" and "right (CROP_MARGINS cfg) = 0"
    and "top (CROP_MARGINS cfg) = 0" and "bottom (CROP_MARGINS cfg) = 0"
  shows "\<exists>st'. screenshot_clean cfg page path st = Inr st' \<and>
           files st' path = Some (PNG (page_screenshot page)) \<and>
           (\<forall>p. p \<noteq> path \<and> p \<noteq> with_suffix path ''.full.png'' \<longrightarrow> files st' p = files st p)"
  using assms(2-5)
  by (simp add: screenshot_clean_fallback [OF assms(1)] Let_def write_file_def emit_def any_margin_def)

theorem zero_margins_keep_full_capture_witness:
  "\<exists>st'. screenshot_clean ((source_config ''out.pdf'')\<lparr> CROP_MARGINS := no_margins \<rparr>) hidden_view
            ''powerbi_tab_exports/tab_01_a.png'' empty_state = Inr st' \<and>
     files st' ''powerbi_tab_exports/tab_01_a.png'' = Some (PNG (blank_image 1920 1200)) \<and>
     files st' ''other.png'' = None"
proof -
  let ?cfg = "(source_config ''out.pdf'')\<lparr> CROP_MARGINS := no_margins \<rparr>"
  let ?path = "''powerbi_tab_exports/tab_01_a.png''"
  have h: "USE_ELEMENT_CAPTURE ?cfg \<longrightarrow>
           (\<forall>s\<in>set (CANVAS_SELECTORS ?cfg). wait_for hidden_view s 2000 \<noteq> Visible)"
    by (simp add: hidden_view_def)
  have z: "left (CROP_MARGINS ?cfg) = 0" "right (CROP_MARGINS ?cfg) = 0"
    "top (CROP_MARGINS ?cfg) = 0" "bottom (CROP_MARGINS ?cfg) = 0"
    by (simp_all add: no_margins_def)
  obtain st' where st': "screenshot_clean ?cfg hidden_view ?path empty_state = Inr st'"
      "files st' ?path = Some (PNG (page_screenshot hidden_view))"
      "\<forall>p. p \<noteq> ?path \<and> p \<noteq> with_suffix ?path ''.full.png'' \<longrightarrow> files st' p = files empty_state p"
    using zero_margins_keep_full_capture [OF h z, of ?path empty_state] by blast
  have "with_suffix ?path ''.full.png'' = ''powerbi_tab_exports/tab_01_a.full.png''"
    by (simp add: with_suffix_def path_suffix_def path_name_def)
  with st'(3) have "files st' ''other.png'' = None"
    by (simp add: empty_state_def)
  with st'(1,2) show ?thesis
    by (auto simp add: hidden_view_def)
qed

text \<open>
  C4. With the margins of the script, the fallback path for the first section leaves two
  files behind: the cropped image under \<^verbatim>\<open>tab_01_aee1ca53a294adcd19d6.png\<close> and the capture of
  the whole page under \<^verbatim>\<open>tab_01_aee1ca53a294adcd19d6.full.png\<close>, which is never removed.
\<close>

theorem full_capture_left_behind:
  "\<exists>st'. screenshot_clean (source_config ''out.pdf'') hidden_view
            ''powerbi_tab_exports/tab_01_aee1ca53a294adcd19d6.png'' empty_state = Inr st' \<and>
     dom (files st') = {''powerbi_tab_exports/tab_01_aee1ca53a294adcd19d6.png'',
                        ''powerbi_tab_exports/tab_01_aee1ca53a294adcd19d6.full.png''} \<and>
     files st' ''powerbi_tab_exports/tab_01_aee1ca53a294adcd19d6.full.png''
       = Some (PNG (blank_image 1920 1200))"
proof -
  have h: "USE_ELEMENT_CAPTURE (source_config ''out.pdf'') \<longrightarrow>
    (\<forall>s\<in>set (CANVAS_SELECTORS (source_config ''out.pdf'')). wait_for hidden_view s 2000 \<noteq> Visible)"
    by (simp add: hidden_view_def)
  show ?thesis
    by (simp add: screenshot_clean_fallback [OF h] Let_def)
       (auto simp add: source_config_def hidden_view_def empty_state_def any_margin_def
          image_save_def crop_def crop_box_def blank_image_def write_file_def emit_def
          with_suffix_def path_suffix_def path_name_def)
qed

section \<open>Properties of the assembly stage\<close>

lemma image_open_Inr: "image_open p st = Inr im \<longleftrightarrow> files st p = Some (PNG im)"
  by (simp add: image_open_def split: option.splits content.splits)

lemma merge_loop_pages:
  "merge_loop images c st = Inr pages \<Longrightarrow>
   \<exists>ims. pages = c @ map image_page ims \<and>
         list_all2 (\<lambda>p im. files st p = Some (PNG im)) images ims"
proof (induction images arbitrary: c)
  case Nil
  then show ?case by simp
next
  case (Cons p images)
  from Cons.prems obtain im where im: "image_open p st = Inr im"
    and rest: "merge_loop images (c @ [image_page im]) st = Inr pages"
    by (auto split: sum.splits)
  from Cons.IH [OF rest] obtain ims where
    "pages = (c @ [image_page im]) @ map image_page ims"
    "list_all2 (\<lambda>p im. files st p = Some (PNG im)) images ims"
    by blast
  with im have "pages = c @ map image_page (im # ims) \<and>
      list_all2 (\<lambda>p im. files st p = Some (PNG im)) (p # images) (im # ims)"
    by (simp add: image_open_Inr)
  then show ?case by blast
qed

lemma page_size_image_page:
  "page_size (image_page im) =
     (real_of_int (fst (im_size im)) * (72 / img_dpi im),
      real_of_int (snd (im_size im)) * (72 / img_dpi im))"
  by (simp add: image_page_def Let_def split: prod.splits)

text \<open>
  C2. Every image merged into the document gets a page whose width and height in points
  are the pixel width and height of the image times 72 / DPI, where DPI is the (first
  component of the) density in the metadata of the image when there is one and it is not
  zero, and 96 otherwise. When that DPI is 96 the page is (W * 0.75, H * 0.75).
\<close>

theorem page_size_from_dpi:
  assumes "merge_pngs_to_pdf images out_pdf st = Inr st'" and "k < length images"
  shows "\<exists>im pages.
           files st (images ! k) = Some (PNG im) \<and>
           files st' out_pdf = Some (PDF pages) \<and> length pages = length images \<and>
           (let dpi = (case im_dpi im of
                         None \<Rightarrow> 96
                       | Some (dx, dy) \<Rightarrow> if dx = 0 then 96 else dx);
                (w, h) = im_size im
            in page_size (pages ! k) = (real_of_int w * (72 / dpi), real_of_int h * (72 / dpi)) \<and>
               (dpi = 96 \<longrightarrow>
                  page_size (pages ! k) = (real_of_int w * 0.75, real_of_int h * 0.75)))"
proof -
  from assms(1) obtain pages where pages: "merge_loop images [] st = Inr pages"
    and st': "st' = write_file out_pdf (PDF pages) st"
    by (auto simp add: merge_pngs_to_pdf_def split: sum.splits)
  from merge_loop_pages [OF pages] obtain ims where
    ims: "pages = map image_page ims" "list_all2 (\<lambda>p im. files st p = Some (PNG im)) images ims"
    by auto
  from ims(2) have len: "length ims = length images"
    by (simp add: list_all2_lengthD)
  have fk: "files st (images ! k) = Some (PNG (ims ! k))"
    using list_all2_nthD [OF ims(2) assms(2)] by simp
  have dpi: "img_dpi (ims ! k) =
      (case im_dpi (ims ! k) of None \<Rightarrow> 96 | Some (dx, dy) \<Rightarrow> if dx = 0 then 96 else dx)"
    by (simp add: img_dpi_def dpi_hint_def Let_def split: option.splits prod.splits)
  have "page_size (pages ! k) = page_size (image_page (ims ! k))"
    using ims(1) len assms(2) by simp
  with dpi have
    "(let dpi = (case im_dpi (ims ! k) of
                         None \<Rightarrow> 96
                       | Some (dx, dy) \<Rightarrow> if dx = 0 then 96 else dx);
                (w, h) = im_size (ims ! k)
            in page_size (pages ! k) = (real_of_int w * (72 / dpi), real_of_int h * (72 / dpi)) \<and>
               (dpi = 96 \<longrightarrow>
                  page_size (pages ! k) = (real_of_int w * 0.75, real_of_int h * 0.75)))"
    by (simp add: page_size_image_page Let_def split: prod.splits)
  moreover have "files st' out_pdf = Some (PDF pages)" "length pages = length images"
    using st' ims(1) len by (simp_all add: write_file_def)
  ultimately show ?thesis using fk by blast
qed

theorem page_size_from_dpi_witness:
  "\<exists>pages. files (write_file ''out.pdf''
                   (PDF [image_page ((blank_image 1920 1200)\<lparr> im_dpi := Some (96, 96) \<rparr>),
                         image_page (blank_image 1780 1055)]) two_images) ''out.pdf''
             = Some (PDF pages) \<and>
           length pages = 2 \<and> page_size (pages ! 0) = (1440, 900)"
proof -
  have run: "merge_pngs_to_pdf [''a.png'', ''b.png''] ''out.pdf'' two_images =
      Inr (write_file ''out.pdf''
             (PDF [image_page ((blank_image 1920 1200)\<lparr> im_dpi := Some (96, 96) \<rparr>),
                   image_page (blank_image 1780 1055)]) two_images)"
    by (simp add: merge_pngs_to_pdf_def image_open_def two_images_def)
  have k: "0 < length [''a.png'', ''b.png'']" by simp
  show ?thesis
    using page_size_from_dpi [OF run k]
    by (auto simp add: two_images_def blank_image_def write_file_def)
qed

section \<open>Properties of the session driver\<close>

lemma main_declined:
  assumes "OUTPUT_DIR cfg \<notin> dom (files st)" and "SECTIONS cfg = sec0 # rest"
    and "goto w (navs st) (tab_url cfg sec0) = Inr page"
    and "lower (strip (operator_input w)) \<noteq> code_points ''y''"
  shows "main cfg w st =
     Inr (st\<lparr> dirs := insert (OUTPUT_DIR cfg) (dirs st), browser_open := False,
             navs := Suc (navs st),
             log := log st @ [Mkdir (OUTPUT_DIR cfg), Launch, NewPage, Goto (tab_url cfg sec0),
                              Prompt, Close] \<rparr>)"
  using assms
  by (simp add: main_def mkdir_def launch_persistent_context_def new_page_def page_goto_def
      browser_close_def emit_def Let_def)

text \<open>
  C5. When the prompt is reached (the output directory could be created, there is a first
  section and the navigation to it succeeded) and the answer of the operator, stripped
  of white space (that of Unicode included) and in lower case, is not \<^verbatim>\<open>y\<close>, \<^verbatim>\<open>main\<close> returns without an error, the browser is closed
  after the prompt, and the files are those from before the run: no image and no
  document has been written.
\<close>

theorem decline_is_clean:
  assumes "OUTPUT_DIR cfg \<notin> dom (files st)" and "SECTIONS cfg = sec0 # rest"
    and "goto w (navs st) (tab_url cfg sec0) = Inr page"
    and "lower (strip (operator_input w)) \<noteq> code_points ''y''"
  shows "\<exists>st'. main cfg w st = Inr st' \<and> files st' = files st \<and> \<not> browser_open st' \<and>
           log st' = log st @ [Mkdir (OUTPUT_DIR cfg), Launch, NewPage, Goto (tab_url cfg sec0),
                               Prompt, Close]"
  by (simp add: main_declined [OF assms])

theorem decline_is_clean_witness:
  "lower (strip (operator_input declining_world)) \<noteq> code_points ''y'' \<and>
   (\<exists>st'. main (source_config ''out.pdf'') declining_world empty_state = Inr st' \<and>
      files st' = Map.empty \<and> \<not> browser_open st' \<and>
      log st' = [Mkdir ''powerbi_tab_exports'', Launch, NewPage,
                 Goto (tab_url (source_config ''out.pdf'') ''aee1ca53a294adcd19d6''), Prompt, Close])"
proof -
  have a: "OUTPUT_DIR (source_config ''out.pdf'') \<notin> dom (files empty_state)"
    by (simp add: empty_state_def)
  have b: "SECTIONS (source_config ''out.pdf'') =
      ''aee1ca53a294adcd19d6'' # tl (SECTIONS (source_config ''out.pdf''))"
    by (simp add: source_config_def)
  have c: "goto declining_world (navs empty_state)
      (tab_url (source_config ''out.pdf'') ''aee1ca53a294adcd19d6'') = Inr hidden_view"
    by (simp add: declining_world_def)
  have d: "lower (strip (operator_input declining_world)) \<noteq> code_points ''y''"
    by (simp add: declining_world_def lower_def strip_def is_space_def lower_point_def
        code_points_def)
  show ?thesis
    using d decline_is_clean [OF a b c d]
    by (simp add: empty_state_def source_config_def)
qed

text \<open>What the capture of one section and the loop over the sections leave untouched.\<close>

lemma probe_selectors_frame:
  "probe_selectors page sels st = (r, st') \<Longrightarrow>
   files st' = files st \<and> dirs st' = dirs st \<and> browser_open st' = browser_open st \<and>
   navs st' = navs st \<and> (\<exists>evs. log st' = log st @ evs)"
proof (induction sels arbitrary: st)
  case Nil
  then show ?case by simp
next
  case (Cons sel rest)
  show ?case
  proof (cases "wait_for page sel 2000")
    case Visible
    with Cons.prems show ?thesis by (auto simp add: emit_def)
  next
    case PWTimeout
    with Cons.prems have "probe_selectors page rest (emit (WaitFor sel 2000) st) = (r, st')"
      by simp
    from Cons.IH [OF this] show ?thesis by (auto simp add: emit_def)
  next
    case OtherException
    with Cons.prems have "probe_selectors page rest (emit (WaitFor sel 2000) st) = (r, st')"
      by simp
    from Cons.IH [OF this] show ?thesis by (auto simp add: emit_def)
  qed
qed

lemma screenshot_clean_frame:
  assumes "screenshot_clean cfg page path st = Inr st'"
  shows "dirs st' = dirs st \<and> browser_open st' = browser_open st \<and> navs st' = navs st \<and>
         (\<exists>evs. log st' = log st @ evs)"
proof -
  obtain r st1 where p: "(if USE_ELEMENT_CAPTURE cfg then find_report_canvas cfg page st else (None, st)) = (r, st1)"
    by (cases "if USE_ELEMENT_CAPTURE cfg then find_report_canvas cfg page st else (None, st)") auto
  then have f1: "dirs st1 = dirs st \<and> browser_open st1 = browser_open st \<and> navs st1 = navs st \<and>
      (\<exists>evs. log st1 = log st @ evs)"
    using probe_selectors_frame [of page "CANVAS_SELECTORS cfg" st r st1]
    by (auto simp add: find_report_canvas_def split: if_splits)
  have "dirs st' = dirs st1 \<and> browser_open st' = browser_open st1 \<and> navs st' = navs st1 \<and>
      (\<exists>evs. log st' = log st1 @ evs)"
    using assms p
    by (auto simp add: screenshot_clean_def Let_def write_file_def emit_def image_save_def
        rename_def image_open_def split: option.splits if_splits prod.splits)
  with f1 show ?thesis by auto
qed

lemma export_loop_result:
  "export_loop cfg w i secs shots st = Inr (shots', st') \<Longrightarrow>
   shots' = shots @ map (\<lambda>(k, sec). img_path cfg k sec) (zip [i..<i + length secs] secs) \<and>
   dirs st' = dirs st \<and> (\<exists>evs. log st' = log st @ evs)"
proof (induction secs arbitrary: i shots st)
  case Nil
  then show ?case by simp
next
  case (Cons sec secs)
  from Cons.prems obtain page st1 st2 where
    g: "page_goto w (tab_url cfg sec) st = Inr (page, st1)"
    and s: "screenshot_clean cfg page (img_path cfg i sec) (wait_fixed cfg st1) = Inr st2"
    and r: "export_loop cfg w (Suc i) secs (shots @ [img_path cfg i sec]) st2 = Inr (shots', st')"
    by (auto simp add: Let_def split: sum.splits prod.splits)
  from g have f1: "dirs st1 = dirs st \<and> (\<exists>evs. log st1 = log st @ evs)"
    by (auto simp add: page_goto_def emit_def split: sum.splits)
  from screenshot_clean_frame [OF s]
  have f2: "dirs st2 = dirs st1 \<and> (\<exists>evs. log st2 = log st1 @ evs)"
    by (auto simp add: wait_fixed_def emit_def)
  from Cons.IH [OF r] have f3:
    "shots' = (shots @ [img_path cfg i sec])
        @ map (\<lambda>(k, sec). img_path cfg k sec) (zip [Suc i..<Suc i + length secs] secs)"
    "dirs st' = dirs st2" "\<exists>evs. log st' = log st2 @ evs"
    by auto
  have "[i..<i + length (sec # secs)] = i # [Suc i..<Suc i + length secs]"
    by (subst upt_rec) simp
  with f3(1) have "shots' = shots @ map (\<lambda>(k, sec). img_path cfg k sec)
      (zip [i..<i + length (sec # secs)] (sec # secs))"
    by simp
  moreover have "dirs st' = dirs st" using f1 f2 f3(2) by simp
  moreover have "\<exists>evs. log st' = log st @ evs" using f1 f2 f3(3) by auto
  ultimately show ?case by blast
qed

lemma main_Inr_cases:
  assumes "main cfg w st = Inr st'"
  obtains sec0 rest page where "OUTPUT_DIR cfg \<notin> dom (files st)" "SECTIONS cfg = sec0 # rest"
    "goto w (navs st) (tab_url cfg sec0) = Inr page"
    "lower (strip (operator_input w)) \<noteq> code_points ''y''"
    "st' = browser_close (state_at_prompt cfg sec0 st)"
  | sec0 rest page shots st5 where "OUTPUT_DIR cfg \<notin> dom (files st)" "SECTIONS cfg = sec0 # rest"
    "goto w (navs st) (tab_url cfg sec0) = Inr page"
    "lower (strip (operator_input w)) = code_points ''y''"
    "export_loop cfg w 1 (SECTIONS cfg) [] (state_at_prompt cfg sec0 st) = Inr (shots, st5)"
    "merge_pngs_to_pdf shots (OUTPUT_PDF cfg) (browser_close st5) = Inr st'"
  using assms
  by (auto simp add: main_def mkdir_def launch_persistent_context_def new_page_def page_goto_def
      emit_def Let_def state_at_prompt_def
      split: if_splits list.splits sum.splits prod.splits)

text \<open>
  C10. The output directory is made by the first call of a run, before the browser is
  launched and before the prompt: in every run that returns, the log of the run starts
  with the \<^verbatim>\<open>mkdir\<close>, the launch, the new page, the navigation to the first section and
  the prompt, and the directory exists at the end. The run in which the operator
  declines is one of them: the directory is there and no file has been written.
\<close>

theorem output_dir_created_first:
  assumes "main cfg w st = Inr st'"
  shows "OUTPUT_DIR cfg \<in> dirs st' \<and>
         (\<exists>sec0 evs. log st' = log st @ [Mkdir (OUTPUT_DIR cfg), Launch, NewPage,
                                          Goto (tab_url cfg sec0), Prompt] @ evs)"
  using assms
proof (cases rule: main_Inr_cases)
  case (1 sec0 rest page)
  then show ?thesis
    by (auto simp add: browser_close_def state_at_prompt_def emit_def)
next
  case (2 sec0 rest page shots st5)
  from export_loop_result [OF 2(5)] obtain evs where
    l: "dirs st5 = dirs (state_at_prompt cfg sec0 st)"
       "log st5 = log (state_at_prompt cfg sec0 st) @ evs"
    by auto
  from 2(6) obtain c where "st' = write_file (OUTPUT_PDF cfg) (PDF c) (browser_close st5)"
    by (auto simp add: merge_pngs_to_pdf_def split: sum.splits)
  with l have "dirs st' = dirs (state_at_prompt cfg sec0 st)"
    "log st' = log (state_at_prompt cfg sec0 st) @ evs @ [Close]"
    by (simp_all add: write_file_def browser_close_def emit_def)
  then show ?thesis
    by (auto simp add: state_at_prompt_def)
qed

theorem output_dir_created_first_witness:
  "\<exists>st'. main (source_config ''out.pdf'') declining_world empty_state = Inr st' \<and>
     ''powerbi_tab_exports'' \<in> dirs st' \<and> files st' = Map.empty \<and>
     (\<exists>evs. log st' = Mkdir ''powerbi_tab_exports'' # Launch # NewPage # evs \<and> Prompt \<in> set evs)"
proof -
  let ?cfg = "source_config ''out.pdf''"
  have a: "OUTPUT_DIR ?cfg \<notin> dom (files empty_state)"
    by (simp add: empty_state_def)
  have b: "SECTIONS ?cfg = ''aee1ca53a294adcd19d6'' # tl (SECTIONS ?cfg)"
    by (simp add: source_config_def)
  have c: "goto declining_world (navs empty_state) (tab_url ?cfg ''aee1ca53a294adcd19d6'')
      = Inr hidden_view"
    by (simp add: declining_world_def)
  have d: "lower (strip (operator_input declining_world)) \<noteq> code_points ''y''"
    by (simp add: declining_world_def lower_def strip_def is_space_def lower_point_def
        code_points_def)
  note run = main_declined [OF a b c d]
  have "files (projr (main ?cfg declining_world empty_state)) = Map.empty"
    by (subst run) (simp add: empty_state_def)
  moreover have "OUTPUT_DIR ?cfg = ''powerbi_tab_exports''" "log empty_state = []"
    by (simp_all add: source_config_def empty_state_def)
  ultimately show ?thesis
    using output_dir_created_first [OF run] run by auto
qed

text \<open>The paths that the loop records and the pages that the merge makes of them, in any
  run that passes the prompt and returns: one path per section, named by the position and
  the identifier of the section, each an image when the document is assembled, and one
  page per path in the same order.\<close>

lemma shots_by_index:
  "map (\<lambda>(k, sec). img_path cfg k sec) (zip [i..<i + length secs] secs) =
   map (\<lambda>k. img_path cfg (i + k) (secs ! k)) [0..<length secs]"
  by (rule nth_equalityI) simp_all

lemma export_pages_in_order:
  assumes "main cfg w st = Inr st'" and "lower (strip (operator_input w)) = code_points ''y''"
  shows "\<exists>shots ims st1.
           shots = map (\<lambda>k. img_path cfg (Suc k) (SECTIONS cfg ! k)) [0..<length (SECTIONS cfg)] \<and>
           list_all2 (\<lambda>p im. files st1 p = Some (PNG im)) shots ims \<and>
           st' = write_file (OUTPUT_PDF cfg) (PDF (map image_page ims)) st1"
  using assms(1)
proof (cases rule: main_Inr_cases)
  case (1 sec0 rest page)
  with assms(2) show ?thesis by simp
next
  case (2 sec0 rest page shots st5)
  let ?shots = "map (\<lambda>k. img_path cfg (Suc k) (SECTIONS cfg ! k)) [0..<length (SECTIONS cfg)]"
  have "shots = [] @ map (\<lambda>(k, sec). img_path cfg k sec)
      (zip [1..<1 + length (SECTIONS cfg)] (SECTIONS cfg))"
    using export_loop_result [OF 2(5)] by blast
  then have shots: "shots = ?shots"
    unfolding shots_by_index by simp
  from 2(6) obtain pages where pages: "merge_loop shots [] (browser_close st5) = Inr pages"
    and st': "st' = write_file (OUTPUT_PDF cfg) (PDF pages) (browser_close st5)"
    by (auto simp add: merge_pngs_to_pdf_def split: sum.splits)
  from merge_loop_pages [OF pages] obtain ims where
    ims: "pages = map image_page ims"
      "list_all2 (\<lambda>p im. files (browser_close st5) p = Some (PNG im)) shots ims"
    by auto
  with shots st' have
    "?shots = ?shots \<and>
     list_all2 (\<lambda>p im. files (browser_close st5) p = Some (PNG im)) ?shots ims \<and>
     st' = write_file (OUTPUT_PDF cfg) (PDF (map image_page ims)) (browser_close st5)"
    by simp
  then show ?thesis by blast
qed

text \<open>The capture of a page on which no selector becomes visible, with the margins of the
  script, and the files after the run of \<^verbatim>\<open>main\<close> over two such sections.\<close>

lemma capture_hidden:
  "screenshot_clean two_sections hidden_view p st =
     Inr (write_file p (PNG (blank_image 1780 1055))
           (write_file (with_suffix p ''.full.png'') (PNG (blank_image 1920 1200))
             (emit (PageShot (with_suffix p ''.full.png''))
               (st\<lparr> log := log st @ map (\<lambda>s. WaitFor s 2000) (CANVAS_SELECTORS two_sections) \<rparr>))))"
proof -
  have fb: "USE_ELEMENT_CAPTURE two_sections \<longrightarrow>
      (\<forall>s\<in>set (CANVAS_SELECTORS two_sections). wait_for hidden_view s 2000 \<noteq> Visible)"
    by (simp add: hidden_view_def)
  show ?thesis
    by (simp add: screenshot_clean_fallback [OF fb] Let_def)
       (simp add: two_sections_def source_config_def hidden_view_def any_margin_def image_save_def
          crop_def crop_box_def blank_image_def)
qed


lemma confirmed_run_files:
  "\<exists>st'. main two_sections confirming_world empty_state = Inr st' \<and>
     files st' =
       [''powerbi_tab_exports/tab_01_aee1ca53a294adcd19d6.full.png'' \<mapsto> PNG (blank_image 1920 1200),
        ''powerbi_tab_exports/tab_01_aee1ca53a294adcd19d6.png'' \<mapsto> PNG (blank_image 1780 1055),
        ''powerbi_tab_exports/tab_02_f3068a3490443d692480.full.png'' \<mapsto> PNG (blank_image 1920 1200),
        ''powerbi_tab_exports/tab_02_f3068a3490443d692480.png'' \<mapsto> PNG (blank_image 1780 1055),
        ''out.pdf'' \<mapsto> PDF [image_page (blank_image 1780 1055), image_page (blank_image 1780 1055)]]"
proof -
  have p1: "img_path two_sections (Suc 0) ''aee1ca53a294adcd19d6'' =
      ''powerbi_tab_exports/tab_01_aee1ca53a294adcd19d6.png''"
    by (simp add: img_path_def two_sections_def source_config_def path_div_def path_parts_def
        format_02d_def digit_char_def)
  have p2: "img_path two_sections (Suc (Suc 0)) ''f3068a3490443d692480'' =
      ''powerbi_tab_exports/tab_02_f3068a3490443d692480.png''"
    by (simp add: img_path_def two_sections_def source_config_def path_div_def path_parts_def
        format_02d_def digit_char_def)
  have t1: "with_suffix ''powerbi_tab_exports/tab_01_aee1ca53a294adcd19d6.png'' ''.full.png'' =
      ''powerbi_tab_exports/tab_01_aee1ca53a294adcd19d6.full.png''"
    by (simp add: with_suffix_def path_suffix_def path_name_def)
  have t2: "with_suffix ''powerbi_tab_exports/tab_02_f3068a3490443d692480.png'' ''.full.png'' =
      ''powerbi_tab_exports/tab_02_f3068a3490443d692480.full.png''"
    by (simp add: with_suffix_def path_suffix_def path_name_def)
  have yes: "lower (strip (operator_input confirming_world)) = code_points ''y''"
    by (simp add: confirming_world_def lower_def strip_def is_space_def lower_point_def
        code_points_def)
  have secs: "SECTIONS two_sections = [''aee1ca53a294adcd19d6'', ''f3068a3490443d692480'']"
    "OUTPUT_PDF two_sections = ''out.pdf''" "OUTPUT_DIR two_sections = ''powerbi_tab_exports''"
    by (simp_all add: two_sections_def source_config_def)
  have go: "goto confirming_world n url = Inr hidden_view" for n url
    by (simp add: confirming_world_def)
  show ?thesis
    by (simp add: main_def mkdir_def secs yes go page_goto_def capture_hidden p1 p2 t1 t2
        Let_def empty_state_def merge_pngs_to_pdf_def image_open_def write_file_def emit_def
        launch_persistent_context_def new_page_def browser_close_def wait_fixed_def
        numeral_2_eq_2)
qed

text \<open>
  C1. The run of the script over two sections whose canvas is not found, confirmed by
  the operator, returns with a document of two pages and with the two images
  \<^verbatim>\<open>tab_01_aee1ca53a294adcd19d6.png\<close> and \<^verbatim>\<open>tab_02_f3068a3490443d692480.png\<close>, in the order of
  the list. But the run leaves four image files for the two sections: the capture of
  the whole page of each section stays behind as a \<^verbatim>\<open>.full.png\<close> file.
\<close>

theorem export_leaves_two_files_per_view:
  "\<exists>st' pages. main two_sections confirming_world empty_state = Inr st' \<and>
     length (SECTIONS two_sections) = 2 \<and>
     files st' ''out.pdf'' = Some (PDF pages) \<and> length pages = 2 \<and>
     dom (files st') =
       {''out.pdf'',
        ''powerbi_tab_exports/tab_01_aee1ca53a294adcd19d6.png'',
        ''powerbi_tab_exports/tab_01_aee1ca53a294adcd19d6.full.png'',
        ''powerbi_tab_exports/tab_02_f3068a3490443d692480.png'',
        ''powerbi_tab_exports/tab_02_f3068a3490443d692480.full.png''}"
proof -
  from confirmed_run_files obtain st' where
    run: "main two_sections confirming_world empty_state = Inr st'"
    and fs: "files st' =
       [''powerbi_tab_exports/tab_01_aee1ca53a294adcd19d6.full.png'' \<mapsto> PNG (blank_image 1920 1200),
        ''powerbi_tab_exports/tab_01_aee1ca53a294adcd19d6.png'' \<mapsto> PNG (blank_image 1780 1055),
        ''powerbi_tab_exports/tab_02_f3068a3490443d692480.full.png'' \<mapsto> PNG (blank_image 1920 1200),
        ''powerbi_tab_exports/tab_02_f3068a3490443d692480.png'' \<mapsto> PNG (blank_image 1780 1055),
        ''out.pdf'' \<mapsto> PDF [image_page (blank_image 1780 1055), image_page (blank_image 1780 1055)]]"
    by blast
  have n: "length (SECTIONS two_sections) = 2"
    by (simp add: two_sections_def source_config_def)
  have pdf: "files st' ''out.pdf'' =
      Some (PDF [image_page (blank_image 1780 1055), image_page (blank_image 1780 1055)])"
    by (simp add: fs)
  have d: "dom (files st') =
       {''out.pdf'',
        ''powerbi_tab_exports/tab_01_aee1ca53a294adcd19d6.png'',
        ''powerbi_tab_exports/tab_01_aee1ca53a294adcd19d6.full.png'',
        ''powerbi_tab_exports/tab_02_f3068a3490443d692480.png'',
        ''powerbi_tab_exports/tab_02_f3068a3490443d692480.full.png''}"
    unfolding fs by (simp add: insert_commute)
  from run n pdf d show ?thesis by simp
qed

end
